theory Spec2Isabelle
  imports Complex_Main
begin

section \<open>Camera framing geometry of the globe scene\<close>

text \<open>
  The geometry of the globe component (\<^verbatim>\<open>GlobeScene\<close>: \<^verbatim>\<open>wrapLng\<close>,
  \<^verbatim>\<open>angularDistance\<close>, \<^verbatim>\<open>cartesianFromLatLng\<close>, \<^verbatim>\<open>latLngFromCartesian\<close>,
  \<^verbatim>\<open>viewForPoints\<close>, the zoom effect) and of \<^verbatim>\<open>lib/geo.ts\<close> (\<^verbatim>\<open>haversineKm\<close>).

  Numbers: a JavaScript \<^verbatim>\<open>number\<close> is modelled as a \<^typ>\<open>real\<close>, so every result below
  is about exact real arithmetic; rounding of IEEE doubles is not modelled. The values
  that are no real numbers (\<^verbatim>\<open>NaN\<close>, the infinities) can only arise here from a
  division by zero, a square root of a negative number or an arc sine outside
  \<open>[-1, 1]\<close>; each of these is an error value of the model. Once a \<^verbatim>\<open>NaN\<close> arises the
  source carries it through \<^verbatim>\<open>Math.min\<close>, \<^verbatim>\<open>Math.max\<close> and the arithmetic into the
  altitude it returns, so the model returns the error in place of the result.

  What the model leaves out. The doubles of the source round every operation, so a sum
  that cancels exactly over the reals can leave a residue there: the sine of the double
  nearest to \<open>pi\<close> is about \<open>1.2e-16\<close>, not 0. The outcome of the test
  \<^verbatim>\<open>magnitude === 0\<close> of \<^verbatim>\<open>viewForPoints\<close> depends on that residue, and so does the
  last bit of a result. The properties below are those that do not depend on either:
  ranges, the absence of errors, the wrap of the
  longitude, and enclosures with a margin far above the rounding. Which centre
  \<^verbatim>\<open>viewForPoints\<close> returns for points that cancel, whether its result depends on
  the order of the points, and whether two results agree to the last bit are not stated
  here.
\<close>

subsection \<open>Numeric primitives\<close>

datatype error = DivisionByZero | DomainError

definition and_then :: "error + 'a \<Rightarrow> ('a \<Rightarrow> error + 'b) \<Rightarrow> error + 'b" where
  "and_then r f = (case r of Inl e \<Rightarrow> Inl e | Inr v \<Rightarrow> f v)"

definition js_div :: "real \<Rightarrow> real \<Rightarrow> error + real" where
  \<comment> \<open>\<^verbatim>\<open>a / b\<close> with a divisor that is not a constant.\<close>
  "js_div a b = (if b = 0 then Inl DivisionByZero else Inr (a / b))"

definition js_sqrt :: "real \<Rightarrow> error + real" where
  \<comment> \<open>\<^verbatim>\<open>Math.sqrt\<close>: \<^verbatim>\<open>NaN\<close> below zero.\<close>
  "js_sqrt a = (if a < 0 then Inl DomainError else Inr (sqrt a))"

definition js_asin :: "real \<Rightarrow> error + real" where
  \<comment> \<open>\<^verbatim>\<open>Math.asin\<close>: \<^verbatim>\<open>NaN\<close> outside \<open>[-1, 1]\<close>.\<close>
  "js_asin a = (if a < - 1 \<or> 1 < a then Inl DomainError else Inr (arcsin a))"

definition trunc :: "real \<Rightarrow> int" where
  \<comment> \<open>Rounding towards zero.\<close>
  "trunc a = (if 0 \<le> a then \<lfloor>a\<rfloor> else \<lceil>a\<rceil>)"

definition js_rem :: "real \<Rightarrow> real \<Rightarrow> real" where
  \<comment> \<open>\<^verbatim>\<open>a % n\<close>: the remainder has the sign of the dividend. Used with the
      constant divisor 360 only.\<close>
  "js_rem a n = a - n * of_int (trunc (a / n))"

definition atan2 :: "real \<Rightarrow> real \<Rightarrow> real" where
  \<comment> \<open>\<^verbatim>\<open>Math.atan2(y, x)\<close> on the reals (there is no negative zero), following
      the case table of ECMAScript.\<close>
  "atan2 b a =
     (if 0 < a then arctan (b / a)
      else if a < 0 then (if 0 \<le> b then arctan (b / a) + pi else arctan (b / a) - pi)
      else if 0 < b then pi / 2
      else if b < 0 then - (pi / 2)
      else 0)"

subsection \<open>Data\<close>

text \<open>
  \<^verbatim>\<open>{ lat, lng }\<close> objects, the \<^verbatim>\<open>Point\<close> type that adds a label, and the object
  returned by \<^verbatim>\<open>viewForPoints\<close>. TypeScript's structural typing lets a \<^verbatim>\<open>Point\<close> be
  passed where \<^verbatim>\<open>{ lat, lng }\<close> is expected; record extension gives the same.
  The fields of the Cartesian vector are \<open>cx\<close>, \<open>cy\<close>, \<open>cz\<close> for the source's
  \<^verbatim>\<open>x\<close>, \<^verbatim>\<open>y\<close>, \<^verbatim>\<open>z\<close>.
\<close>

record latlng =
  lat :: real
  lng :: real

record point = latlng +
  label :: string

record view = latlng +
  farAltitude :: real

record cartesian =
  cx :: real
  cy :: real
  cz :: real

definition DEFAULT_POINT_OF_VIEW :: latlng where
  "DEFAULT_POINT_OF_VIEW = \<lparr>lat = 20, lng = 0\<rparr>"

definition FAR_ALTITUDE :: real where
  "FAR_ALTITUDE = 4.6"

definition CLOSE_ALTITUDE :: real where
  "CLOSE_ALTITUDE = 1.1"

text \<open>
  The domain of a geographic point as the data model gives it: latitude in
  \<open>[-90, 90]\<close>, longitude in \<open>[-180, 180]\<close>. The source does not check it.
\<close>

definition validLat :: "'a latlng_scheme \<Rightarrow> bool" where
  "validLat p = (- 90 \<le> lat p \<and> lat p \<le> 90)"

definition validGeoPoint :: "'a latlng_scheme \<Rightarrow> bool" where
  "validGeoPoint p = (validLat p \<and> - 180 \<le> lng p \<and> lng p \<le> 180)"

subsection \<open>Conversions and distances\<close>

definition toRad :: "real \<Rightarrow> real" where
  "toRad deg = (deg * pi) / 180"

definition toDeg :: "real \<Rightarrow> real" where
  "toDeg rad = (rad * 180) / pi"

definition wrapLng :: "real \<Rightarrow> real" where
  "wrapLng l =
     (let wrapped = js_rem (l + 180) 360 - 180
      in if wrapped < - 180 then wrapped + 360 else wrapped)"

definition haversineTerm :: "'a latlng_scheme \<Rightarrow> 'b latlng_scheme \<Rightarrow> real" where
  \<comment> \<open>The local \<^verbatim>\<open>h\<close> of \<^verbatim>\<open>angularDistance\<close>.\<close>
  "haversineTerm a b =
     (let lat1 = toRad (lat a);
          lat2 = toRad (lat b);
          dLat = lat2 - lat1;
          dLng = toRad (lng b - lng a)
      in (sin (dLat / 2))\<^sup>2 + cos lat1 * cos lat2 * (sin (dLng / 2))\<^sup>2)"

definition angularDistance :: "'a latlng_scheme \<Rightarrow> 'b latlng_scheme \<Rightarrow> error + real" where
  "angularDistance a b =
     and_then (js_sqrt (haversineTerm a b)) (\<lambda>r.
     and_then (js_asin (min 1 r)) (\<lambda>t.
     Inr (2 * t)))"

definition haversineKm_s :: "'a latlng_scheme \<Rightarrow> 'b latlng_scheme \<Rightarrow> real" where
  \<comment> \<open>The local \<^verbatim>\<open>s\<close> of \<^verbatim>\<open>haversineKm\<close>.\<close>
  "haversineKm_s a b =
     (let dLat = toRad (lat b - lat a);
          dLon = toRad (lng b - lng a);
          lat1 = toRad (lat a);
          lat2 = toRad (lat b)
      in (sin (dLat / 2))\<^sup>2 + cos lat1 * cos lat2 * (sin (dLon / 2))\<^sup>2)"

definition haversineKm :: "'a latlng_scheme \<Rightarrow> 'b latlng_scheme \<Rightarrow> error + real" where
  "haversineKm a b =
     (let R = 6371 in
      and_then (js_sqrt (haversineKm_s a b)) (\<lambda>r.
      and_then (js_asin r) (\<lambda>t.
      Inr (2 * R * t))))"

definition cartesianFromLatLng :: "'a latlng_scheme \<Rightarrow> cartesian" where
  "cartesianFromLatLng p =
     (let phi = toRad (lat p);
          theta = toRad (lng p)
      in \<lparr>cx = cos phi * cos theta, cy = cos phi * sin theta, cz = sin phi\<rparr>)"

definition latLngFromCartesian :: "cartesian \<Rightarrow> latlng" where
  "latLngFromCartesian v =
     (let hyp = sqrt (cx v * cx v + cy v * cy v)
      in \<lparr>lat = toDeg (atan2 (cz v) hyp), lng = wrapLng (toDeg (atan2 (cy v) (cx v)))\<rparr>)"

subsection \<open>Framing a list of points\<close>

definition sumCartesian :: "'a latlng_scheme list \<Rightarrow> cartesian" where
  \<comment> \<open>The first \<^verbatim>\<open>reduce\<close> of \<^verbatim>\<open>viewForPoints\<close>.\<close>
  "sumCartesian points =
     foldl (\<lambda>acc p. let c = cartesianFromLatLng p
                     in \<lparr>cx = cx acc + cx c, cy = cy acc + cy c, cz = cz acc + cz c\<rparr>)
           \<lparr>cx = 0, cy = 0, cz = 0\<rparr> points"

definition centerOf :: "cartesian \<Rightarrow> real \<Rightarrow> error + latlng" where
  \<comment> \<open>The conditional that chooses \<^verbatim>\<open>center\<close>.\<close>
  "centerOf s magnitude =
     (if magnitude = 0 then Inr DEFAULT_POINT_OF_VIEW
      else and_then (js_div (cx s) magnitude) (\<lambda>a.
           and_then (js_div (cy s) magnitude) (\<lambda>b.
           and_then (js_div (cz s) magnitude) (\<lambda>c.
           Inr (latLngFromCartesian \<lparr>cx = a, cy = b, cz = c\<rparr>)))))"

definition maxAngularSpread :: "latlng \<Rightarrow> 'a latlng_scheme list \<Rightarrow> error + real" where
  \<comment> \<open>The second \<^verbatim>\<open>reduce\<close> of \<^verbatim>\<open>viewForPoints\<close>.\<close>
  "maxAngularSpread center points =
     foldl (\<lambda>acc p. and_then acc (\<lambda>m.
                     and_then (angularDistance center p) (\<lambda>angle.
                     Inr (max m angle))))
           (Inr 0) points"

definition viewForPoints :: "point list \<Rightarrow> error + view" where
  "viewForPoints points =
     (if length points = 0 then
        Inr \<lparr>lat = lat DEFAULT_POINT_OF_VIEW, lng = lng DEFAULT_POINT_OF_VIEW,
             farAltitude = FAR_ALTITUDE\<rparr>
      else if length points = 1 then
        Inr \<lparr>lat = lat (points ! 0), lng = lng (points ! 0),
             farAltitude = CLOSE_ALTITUDE + 0.1\<rparr>
      else
        let s = sumCartesian points;
            magnitude = sqrt (cx s * cx s + cy s * cy s + cz s * cz s)
        in and_then (centerOf s magnitude) (\<lambda>center.
           and_then (maxAngularSpread center points) (\<lambda>spread.
           let spreadRatio = min (spread / (pi / 2)) 1;
               far = CLOSE_ALTITUDE + (FAR_ALTITUDE - CLOSE_ALTITUDE) * (0.35 + 0.65 * spreadRatio)
           in Inr \<lparr>lat = lat center, lng = lng center,
                   farAltitude = min (max far CLOSE_ALTITUDE) FAR_ALTITUDE\<rparr>)))"

subsection \<open>The zoom effect\<close>

definition closeAltitude :: "real \<Rightarrow> real" where
  "closeAltitude far = max CLOSE_ALTITUDE (far - 1.35)"

definition targetAltitude :: "real \<Rightarrow> real \<Rightarrow> real \<Rightarrow> real" where
  \<comment> \<open>The altitude the zoom effect applies for a far altitude, a close altitude and
      the \<^verbatim>\<open>zoomProgress\<close> property.\<close>
  "targetAltitude far close zoomProgress =
     (let clampedProgress = min (max zoomProgress 0) 1
      in far - (far - close) * clampedProgress)"

subsection \<open>The two points of the scene\<close>

definition me :: point where
  "me = \<lparr>lat = 45.815, lng = 15.9819, label = ''Petar (general area)''\<rparr>"

definition viewer :: point where
  "viewer = \<lparr>lat = 37.7749, lng = - 122.4194, label = ''Viewer (placeholder)''\<rparr>"

definition distanceKm :: "error + real" where
  \<comment> \<open>The argument of \<^verbatim>\<open>Math.round\<close> in the scene's \<^verbatim>\<open>distanceKm\<close>.\<close>
  "distanceKm = haversineKm \<lparr>lat = lat me, lng = lng me\<rparr> \<lparr>lat = lat viewer, lng = lng viewer\<rparr>"

section \<open>Properties\<close>

subsection \<open>Altitude interpolation\<close>

text \<open>
  C3. When the close altitude is at most the wide altitude, the interpolated target
  altitude is the wide altitude at progress 0, the close altitude at progress 1, and
  never increases when the progress grows, over all real progress values.
\<close>

theorem targetAltitude_endpoints_antimono:
  assumes "close \<le> far"
  shows "targetAltitude far close 0 = far
       \<and> targetAltitude far close 1 = close
       \<and> (\<forall>p q. p \<le> q \<longrightarrow> targetAltitude far close q \<le> targetAltitude far close p)"
proof -
  have mono: "targetAltitude far close q \<le> targetAltitude far close p" if "p \<le> q" for p q
  proof -
    have "min (max p 0) 1 \<le> min (max q 0) (1::real)"
      using that by auto
    moreover have "0 \<le> far - close"
      using assms by simp
    ultimately have "(far - close) * min (max p 0) 1 \<le> (far - close) * min (max q 0) 1"
      by (rule mult_left_mono)
    then show ?thesis
      by (simp add: targetAltitude_def)
  qed
  have "targetAltitude far close 0 = far" and "targetAltitude far close 1 = close"
    by (simp_all add: targetAltitude_def)
  with mono show ?thesis
    by blast
qed

theorem targetAltitude_endpoints_antimono_witness:
  "closeAltitude 2.45 \<le> 2.45
   \<and> targetAltitude 2.45 (closeAltitude 2.45) 0 = 2.45
   \<and> targetAltitude 2.45 (closeAltitude 2.45) 1 = closeAltitude 2.45
   \<and> targetAltitude 2.45 (closeAltitude 2.45) (3/4) \<le> targetAltitude 2.45 (closeAltitude 2.45) (1/4)"
proof -
  have h: "closeAltitude 2.45 \<le> 2.45"
    by (simp add: closeAltitude_def CLOSE_ALTITUDE_def)
  from targetAltitude_endpoints_antimono [OF h] h show ?thesis
    by simp
qed

subsection \<open>The haversine term and the angular distance\<close>

lemma toRad_lat_range:
  assumes "validLat p"
  shows "- (pi / 2) \<le> toRad (lat p)" and "toRad (lat p) \<le> pi / 2"
proof -
  have "- 90 \<le> lat p" "lat p \<le> 90"
    using assms by (simp_all add: validLat_def)
  then have "(- 90) * pi \<le> lat p * pi" "lat p * pi \<le> 90 * pi"
    by (simp_all only: mult_right_mono pi_ge_zero)
  then show "- (pi / 2) \<le> toRad (lat p)" and "toRad (lat p) \<le> pi / 2"
    by (simp_all add: toRad_def)
qed

lemma cos_toRad_lat_nonneg: "validLat p \<Longrightarrow> 0 \<le> cos (toRad (lat p))"
  by (rule cos_ge_zero) (rule toRad_lat_range, assumption)+

lemma sin_half_squared: "(sin (u / 2))\<^sup>2 = (1 - cos u) / 2" for u :: real
  using cos_double_sin [of "u / 2"] by simp

lemma haversine_expr_bounds:
  fixes p q d :: real
  assumes "0 \<le> cos p" and "0 \<le> cos q"
  shows "0 \<le> (sin ((q - p) / 2))\<^sup>2 + cos p * cos q * (sin (d / 2))\<^sup>2"
    and "(sin ((q - p) / 2))\<^sup>2 + cos p * cos q * (sin (d / 2))\<^sup>2 \<le> 1"
proof -
  let ?c = "cos p * cos q"
  have c: "0 \<le> ?c"
    using assms by simp
  have s: "0 \<le> (sin (d / 2))\<^sup>2" "(sin (d / 2))\<^sup>2 \<le> 1"
    by (simp_all add: abs_square_le_1)
  show "0 \<le> (sin ((q - p) / 2))\<^sup>2 + ?c * (sin (d / 2))\<^sup>2"
    using c s by simp
  have "?c * (sin (d / 2))\<^sup>2 \<le> ?c * 1"
    using c s(2) by (rule mult_left_mono [rotated])
  then have "(sin ((q - p) / 2))\<^sup>2 + ?c * (sin (d / 2))\<^sup>2 \<le> (1 - cos (q - p)) / 2 + ?c"
    by (simp add: sin_half_squared)
  also have "\<dots> = (1 + cos (q + p)) / 2"
    by (simp add: cos_diff cos_add field_simps)
  also have "\<dots> \<le> 1"
    using cos_le_one [of "q + p"] by simp
  finally show "(sin ((q - p) / 2))\<^sup>2 + ?c * (sin (d / 2))\<^sup>2 \<le> 1" .
qed

lemma haversineTerm_bounds:
  assumes "validLat a" and "validLat b"
  shows "0 \<le> haversineTerm a b" and "haversineTerm a b \<le> 1"
  using haversine_expr_bounds [OF cos_toRad_lat_nonneg [OF assms(1)] cos_toRad_lat_nonneg [OF assms(2)]]
  by (simp_all add: haversineTerm_def Let_def)

lemma angularDistance_Inr:
  assumes "0 \<le> haversineTerm a b"
  shows "angularDistance a b = Inr (2 * arcsin (min 1 (sqrt (haversineTerm a b))))"
proof -
  have "0 \<le> sqrt (haversineTerm a b)"
    using assms by simp
  then have "\<not> min 1 (sqrt (haversineTerm a b)) < - 1"
    by linarith
  then show ?thesis
    using assms by (simp add: angularDistance_def and_then_def js_sqrt_def js_asin_def)
qed

lemma arcsin_clamped_range:
  fixes h :: real
  assumes "0 \<le> h"
  shows "0 \<le> 2 * arcsin (min 1 (sqrt h))" and "2 * arcsin (min 1 (sqrt h)) \<le> pi"
proof -
  have m: "0 \<le> min 1 (sqrt h)" "min 1 (sqrt h) \<le> 1"
    using assms by simp_all
  then have "0 \<le> arcsin (min 1 (sqrt h))"
    by (intro arcsin_nonneg) simp
  moreover have "arcsin (min 1 (sqrt h)) \<le> pi / 2"
    using m by (intro arcsin_ubound) linarith+
  ultimately show "0 \<le> 2 * arcsin (min 1 (sqrt h))" and "2 * arcsin (min 1 (sqrt h)) \<le> pi"
    by simp_all
qed

text \<open>
  C7. For two points with latitudes in \<open>[-90, 90]\<close> the haversine term \<open>h\<close> of
  \<^verbatim>\<open>angularDistance\<close> lies in \<open>[0, 1]\<close>, the clamped argument \<open>min(1, sqrt h)\<close> of
  the arc sine lies in \<open>[0, 1]\<close>, so that no domain error arises, and the distance
  returned lies in \<open>[0, pi]\<close>.
\<close>

theorem angularDistance_range:
  assumes "validLat a" and "validLat b"
  shows "0 \<le> haversineTerm a b \<and> haversineTerm a b \<le> 1
       \<and> 0 \<le> min 1 (sqrt (haversineTerm a b)) \<and> min 1 (sqrt (haversineTerm a b)) \<le> 1
       \<and> (\<exists>d. angularDistance a b = Inr d \<and> 0 \<le> d \<and> d \<le> pi)"
proof -
  note h = haversineTerm_bounds [OF assms]
  have "angularDistance a b = Inr (2 * arcsin (min 1 (sqrt (haversineTerm a b))))"
    using h(1) by (rule angularDistance_Inr)
  with arcsin_clamped_range [OF h(1)] h show ?thesis
    by simp
qed

theorem angularDistance_range_witness:
  "validLat \<lparr>lat = 20, lng = 0\<rparr> \<and> validLat \<lparr>lat = 0, lng = 180\<rparr>
   \<and> haversineTerm \<lparr>lat = 20, lng = 0\<rparr> \<lparr>lat = 0, lng = 180\<rparr> \<le> 1
   \<and> (\<exists>d. angularDistance \<lparr>lat = 20, lng = 0\<rparr> \<lparr>lat = 0, lng = 180\<rparr> = Inr d
          \<and> 0 \<le> d \<and> d \<le> pi)"
proof -
  have a: "validLat \<lparr>lat = 20, lng = 0\<rparr>" and b: "validLat \<lparr>lat = 0, lng = 180\<rparr>"
    by (simp_all add: validLat_def)
  from angularDistance_range [OF a b] a b show ?thesis
    by blast
qed

subsection \<open>The haversine distance in kilometres\<close>

lemma haversineKm_s_eq: "haversineKm_s a b = haversineTerm a b"
  by (simp add: haversineKm_s_def haversineTerm_def toRad_def Let_def diff_divide_distrib left_diff_distrib)

lemma haversineKm_Inr:
  assumes "0 \<le> haversineTerm a b" and "haversineTerm a b \<le> 1"
  shows "haversineKm a b = Inr (2 * 6371 * arcsin (sqrt (haversineTerm a b)))"
proof -
  have "0 \<le> sqrt (haversineTerm a b)" and "sqrt (haversineTerm a b) \<le> 1"
    using assms by simp_all
  then have "\<not> (sqrt (haversineTerm a b) < - 1 \<or> 1 < sqrt (haversineTerm a b))"
    by linarith
  then show ?thesis
    using assms(1)
    by (simp add: haversineKm_def haversineKm_s_eq and_then_def js_sqrt_def js_asin_def)
qed

subsection \<open>Longitude wrapping\<close>

lemma js_rem_360_nonneg:
  assumes "0 \<le> a"
  shows "0 \<le> js_rem a 360" and "js_rem a 360 < 360"
proof -
  have "of_int \<lfloor>a / 360\<rfloor> \<le> a / 360" and "a / 360 < of_int \<lfloor>a / 360\<rfloor> + 1"
    by linarith+
  then have "360 * of_int \<lfloor>a / 360\<rfloor> \<le> a" and "a < 360 * of_int \<lfloor>a / 360\<rfloor> + 360"
    by linarith+
  then show "0 \<le> js_rem a 360" and "js_rem a 360 < 360"
    using assms by (simp_all add: js_rem_def trunc_def)
qed

lemma js_rem_360_neg:
  assumes "a < 0"
  shows "- 360 < js_rem a 360" and "js_rem a 360 \<le> 0"
proof -
  have "a / 360 \<le> of_int \<lceil>a / 360\<rceil>" and "of_int \<lceil>a / 360\<rceil> < a / 360 + 1"
    by linarith+
  then have "a \<le> 360 * of_int \<lceil>a / 360\<rceil>" and "360 * of_int \<lceil>a / 360\<rceil> < a + 360"
    by linarith+
  then show "- 360 < js_rem a 360" and "js_rem a 360 \<le> 0"
    using assms by (simp_all add: js_rem_def trunc_def)
qed

lemma wrapLng_range: "- 180 \<le> wrapLng l" "wrapLng l < 180"
proof -
  consider "0 \<le> l + 180" | "l + 180 < 0" by linarith
  then have "- 180 \<le> wrapLng l \<and> wrapLng l < 180"
  proof cases
    case 1
    from js_rem_360_nonneg [OF 1] show ?thesis
      by (simp add: wrapLng_def Let_def)
  next
    case 2
    from js_rem_360_neg [OF 2] show ?thesis
      by (auto simp add: wrapLng_def Let_def)
  qed
  then show "- 180 \<le> wrapLng l" "wrapLng l < 180" by simp_all
qed

lemma wrapLng_id: 
  assumes "- 180 \<le> l" and "l < 180"
  shows "wrapLng l = l"
proof -
  have "0 \<le> (l + 180) / 360" "(l + 180) / 360 < 1"
    using assms by simp_all
  then have "\<lfloor>(l + 180) / 360\<rfloor> = 0"
    by linarith
  then show ?thesis
    using assms by (simp add: wrapLng_def js_rem_def trunc_def Let_def)
qed

lemma wrapLng_180: "wrapLng 180 = - 180"
  by (simp add: wrapLng_def js_rem_def trunc_def Let_def)

text \<open>
  C5, as amended. Every longitude that \<^verbatim>\<open>latLngFromCartesian\<close> returns lies in the
  half-open interval \<open>[-180, 180)\<close>, for every input vector.
\<close>

theorem latLngFromCartesian_lng_range:
  "- 180 \<le> lng (latLngFromCartesian v) \<and> lng (latLngFromCartesian v) < 180"
  using wrapLng_range by (simp add: latLngFromCartesian_def Let_def)

text \<open>
  C5 as stated fails on the negative x axis: the nonzero vector \<open>(-1, 0, 0)\<close> has
  \<open>atan2(0, -1) = pi\<close>, 180 degrees, which \<^verbatim>\<open>wrapLng\<close> maps to -180, outside
  \<open>(-180, 180]\<close>.
\<close>

theorem latLngFromCartesian_lng_counterexample:
  "\<lparr>cx = - 1, cy = 0, cz = 0\<rparr> \<noteq> \<lparr>cx = 0, cy = 0, cz = 0\<rparr>
   \<and> lng (latLngFromCartesian \<lparr>cx = - 1, cy = 0, cz = 0\<rparr>) = - 180
   \<and> \<not> (- 180 < lng (latLngFromCartesian \<lparr>cx = - 1, cy = 0, cz = 0\<rparr>))"
  by (simp add: latLngFromCartesian_def Let_def atan2_def toDeg_def wrapLng_180)

subsection \<open>To the unit vector and back\<close>

lemma toDeg_toRad: "toDeg (toRad d) = d"
  by (simp add: toDeg_def toRad_def)

lemma cos_neg_upper:
  fixes t :: real
  assumes "pi / 2 < t" and "t \<le> pi"
  shows "cos t < 0"
proof -
  have "0 < cos (t - pi)"
    using assms by (intro cos_gt_zero_pi) simp_all
  then show ?thesis
    by (simp add: cos_diff)
qed

lemma cos_neg_lower:
  fixes t :: real
  assumes "- pi < t" and "t < - (pi / 2)"
  shows "cos t < 0"
  using cos_neg_upper [of "- t"] assms by simp

lemma atan2_scale:
  assumes "0 < c"
  shows "atan2 (c * b) (c * a) = atan2 b a"
  using assms by (simp add: atan2_def zero_less_mult_iff mult_less_0_iff zero_le_mult_iff)

lemma atan2_sin_cos:
  assumes "- pi < t" and "t \<le> pi"
  shows "atan2 (sin t) (cos t) = t"
proof -
  consider "- (pi / 2) < t" "t < pi / 2" | "t = pi / 2" | "t = - (pi / 2)"
    | "pi / 2 < t" | "t < - (pi / 2)"
    by linarith
  then show ?thesis
  proof cases
    case 1
    then have "0 < cos t"
      by (rule cos_gt_zero_pi)
    then have "atan2 (sin t) (cos t) = arctan (tan t)"
      by (simp add: atan2_def tan_def)
    then show ?thesis
      using 1 by (simp add: arctan_tan)
  next
    case 2
    have "atan2 (sin (pi / 2)) (cos (pi / 2)) = pi / 2"
      by (simp add: atan2_def)
    then show ?thesis
      unfolding 2 .
  next
    case 3
    have "atan2 (sin (- (pi / 2))) (cos (- (pi / 2))) = - (pi / 2)"
      by (simp add: atan2_def)
    then show ?thesis
      unfolding 3 .
  next
    case 4
    then have c: "cos t < 0"
      using assms by (intro cos_neg_upper)
    have s: "0 \<le> sin t"
      using 4 assms by (intro sin_ge_zero) simp_all
    have "arctan (tan (t - pi)) = t - pi"
      using 4 assms by (intro arctan_tan) simp_all
    moreover have "tan (t - pi) = tan t"
      using tan_periodic_pi [of "t - pi"] by simp
    ultimately have "arctan (sin t / cos t) = t - pi"
      by (simp add: tan_def)
    then show ?thesis
      using c s by (simp add: atan2_def)
  next
    case 5
    then have c: "cos t < 0"
      using assms by (intro cos_neg_lower)
    have "0 < sin (- t)"
      using 5 assms by (intro sin_gt_zero) simp_all
    then have s: "sin t < 0"
      by simp
    have "arctan (tan (t + pi)) = t + pi"
      using 5 assms by (intro arctan_tan) simp_all
    then have "arctan (sin t / cos t) = t + pi"
      by (simp add: tan_def)
    then show ?thesis
      using c s by (simp add: atan2_def)
  qed
qed

lemma toRad_open_lat:
  assumes "- 90 < d" and "d < 90"
  shows "- (pi / 2) < toRad d" and "toRad d < pi / 2"
proof -
  have "(- 90) * pi < d * pi" and "d * pi < 90 * pi"
    using assms by (simp_all only: mult_strict_right_mono pi_gt_zero)
  then show "- (pi / 2) < toRad d" and "toRad d < pi / 2"
    by (simp_all add: toRad_def)
qed

lemma toRad_lng_range:
  assumes "- 180 \<le> d" and "d \<le> 180"
  shows "- pi \<le> toRad d" and "toRad d \<le> pi"
proof -
  have "(- 180) * pi \<le> d * pi" and "d * pi \<le> 180 * pi"
    using assms by (simp_all only: mult_right_mono pi_ge_zero)
  then show "- pi \<le> toRad d" and "toRad d \<le> pi"
    by (simp_all add: toRad_def)
qed

lemma toRad_eq_minus_pi_iff: "toRad d = - pi \<longleftrightarrow> d = - 180"
proof -
  have "toRad d = - pi \<longleftrightarrow> d * pi = (- 180) * pi"
    by (simp add: toRad_def mult.commute)
  also have "\<dots> \<longleftrightarrow> d = - 180"
    by (simp only: mult_cancel_right) simp
  finally show ?thesis .
qed

lemma sum_of_scaled_squares:
  fixes a b c :: real
  shows "a * b * (a * b) + a * c * (a * c) = a\<^sup>2 * (c\<^sup>2 + b\<^sup>2)"
  by (simp add: power2_eq_square algebra_simps)

lemma roundtrip_lat:
  assumes "- 90 < lat p" and "lat p < 90"
  shows "lat (latLngFromCartesian (cartesianFromLatLng p)) = lat p"
proof -
  let ?phi = "toRad (lat p)" and ?theta = "toRad (lng p)"
  note r = toRad_open_lat [OF assms]
  have c: "0 < cos ?phi"
    using r by (rule cos_gt_zero_pi)
  have "cos ?phi * cos ?theta * (cos ?phi * cos ?theta) + cos ?phi * sin ?theta * (cos ?phi * sin ?theta)
        = (cos ?phi)\<^sup>2 * ((sin ?theta)\<^sup>2 + (cos ?theta)\<^sup>2)"
    by (rule sum_of_scaled_squares)
  also have "\<dots> = (cos ?phi)\<^sup>2"
    by simp
  finally have "sqrt (cos ?phi * cos ?theta * (cos ?phi * cos ?theta)
                    + cos ?phi * sin ?theta * (cos ?phi * sin ?theta)) = cos ?phi"
    using c by simp
  moreover have "atan2 (sin ?phi) (cos ?phi) = ?phi"
    using r pi_gt_zero by (intro atan2_sin_cos) linarith+
  ultimately show ?thesis
    by (simp add: latLngFromCartesian_def cartesianFromLatLng_def Let_def toDeg_toRad)
qed

lemma roundtrip_lng:
  assumes "- 90 < lat p" and "lat p < 90" and "- 180 \<le> lng p" and "lng p \<le> 180"
  shows "lng (latLngFromCartesian (cartesianFromLatLng p)) = (if lng p = 180 then - 180 else lng p)"
proof -
  let ?phi = "toRad (lat p)" and ?theta = "toRad (lng p)"
  have c: "0 < cos ?phi"
    using toRad_open_lat [OF assms(1,2)] by (rule cos_gt_zero_pi)
  have *: "lng (latLngFromCartesian (cartesianFromLatLng p))
           = wrapLng (toDeg (atan2 (sin ?theta) (cos ?theta)))"
    by (simp add: latLngFromCartesian_def cartesianFromLatLng_def Let_def atan2_scale [OF c])
  note t = toRad_lng_range [OF assms(3,4)]
  show ?thesis
  proof (cases "lng p = - 180")
    case True
    then have "?theta = - pi"
      by (simp add: toRad_eq_minus_pi_iff)
    then have "atan2 (sin ?theta) (cos ?theta) = pi"
      by (simp add: atan2_def)
    then show ?thesis
      using True by (simp add: * toDeg_def wrapLng_180)
  next
    case False
    then have "?theta \<noteq> - pi"
      by (simp add: toRad_eq_minus_pi_iff)
    then have "- pi < ?theta"
      using t(1) by simp
    then have "atan2 (sin ?theta) (cos ?theta) = ?theta"
      using t(2) by (rule atan2_sin_cos)
    then have **: "lng (latLngFromCartesian (cartesianFromLatLng p)) = wrapLng (lng p)"
      by (simp add: * toDeg_toRad)
    show ?thesis
    proof (cases "lng p = 180")
      case True
      then show ?thesis
        by (simp add: ** wrapLng_180)
    next
      case False
      then have "lng p < 180"
        using assms(4) by simp
      with assms(3) have "wrapLng (lng p) = lng p"
        by (rule wrapLng_id)
      then show ?thesis
        using False by (simp add: **)
    qed
  qed
qed

text \<open>
  C4, as amended. For a point with latitude in \<open>(-90, 90)\<close> and longitude in
  \<open>[-180, 180)\<close>, converting to the unit vector and back gives the latitude and the
  longitude of the point. (At longitude 180 the result is -180, as \<open>roundtrip_lng\<close>
  shows.)
\<close>

theorem latLngFromCartesian_cartesianFromLatLng:
  assumes "- 90 < lat p" and "lat p < 90" and "- 180 \<le> lng p" and "lng p < 180"
  shows "latLngFromCartesian (cartesianFromLatLng p) = \<lparr>lat = lat p, lng = lng p\<rparr>"
proof -
  have "lng p \<le> 180" and "lng p \<noteq> 180"
    using assms(4) by simp_all
  then have "lng (latLngFromCartesian (cartesianFromLatLng p)) = lng p"
    using roundtrip_lng [OF assms(1-3)] by simp
  moreover have "lat (latLngFromCartesian (cartesianFromLatLng p)) = lat p"
    using assms(1,2) by (rule roundtrip_lat)
  ultimately show ?thesis
    by (intro latlng.equality) simp_all
qed

text \<open>
  C4 as stated fails at longitude 180: the point \<open>(0, 180)\<close> comes back as
  \<open>(0, -180)\<close>.
\<close>

theorem roundtrip_counterexample:
  "- 90 < lat \<lparr>lat = 0, lng = 180\<rparr> \<and> lat \<lparr>lat = 0, lng = 180\<rparr> < 90
   \<and> - 180 \<le> lng \<lparr>lat = 0, lng = 180\<rparr> \<and> lng \<lparr>lat = 0, lng = 180\<rparr> \<le> 180
   \<and> lng (latLngFromCartesian (cartesianFromLatLng \<lparr>lat = 0, lng = 180\<rparr>)) = - 180
   \<and> latLngFromCartesian (cartesianFromLatLng \<lparr>lat = 0, lng = 180\<rparr>) \<noteq> \<lparr>lat = 0, lng = 180\<rparr>"
proof -
  have "lng (latLngFromCartesian (cartesianFromLatLng \<lparr>lat = 0, lng = 180\<rparr>)) = - 180"
    using roundtrip_lng [of "\<lparr>lat = 0, lng = 180\<rparr>"] by simp
  moreover from this
  have "latLngFromCartesian (cartesianFromLatLng \<lparr>lat = 0, lng = 180\<rparr>) \<noteq> \<lparr>lat = 0, lng = 180\<rparr>"
    by (auto dest: arg_cong [where f = lng])
  ultimately show ?thesis
    by simp
qed

theorem latLngFromCartesian_cartesianFromLatLng_witness:
  "latLngFromCartesian (cartesianFromLatLng \<lparr>lat = 45.815, lng = - 180\<rparr>)
   = \<lparr>lat = 45.815, lng = - 180\<rparr>"
  using latLngFromCartesian_cartesianFromLatLng [of "\<lparr>lat = 45.815, lng = - 180\<rparr>"] by simp

subsection \<open>Framing a list of points\<close>

text \<open>
  The second \<^verbatim>\<open>reduce\<close> in closed form: it fails as soon as one distance is
  undefined and otherwise is the maximum of 0 and the distances to the points.
\<close>

lemma angularDistance_cases:
  "angularDistance c p =
     (if haversineTerm c p < 0 then Inl DomainError
      else Inr (2 * arcsin (min 1 (sqrt (haversineTerm c p)))))"
proof (cases "haversineTerm c p < 0")
  case True
  then show ?thesis
    by (simp add: angularDistance_def and_then_def js_sqrt_def)
next
  case False
  then show ?thesis
    using angularDistance_Inr [of c p] by simp
qed

lemma Max_insert_max:
  fixes S :: "real set"
  assumes "finite S"
  shows "Max (insert (max m a) S) = Max (insert m (insert a S))"
proof (cases "S = {}")
  case True
  then show ?thesis by simp
next
  case False
  then show ?thesis
    using assms by (simp add: max.assoc)
qed

lemma maxAngularSpread_foldl_Inl:
  "foldl (\<lambda>acc p. and_then acc (\<lambda>m. and_then (angularDistance c p) (\<lambda>angle. Inr (max m angle))))
         (Inl e) ps = Inl e"
  by (induction ps) (simp_all add: and_then_def)

lemma maxAngularSpread_foldl_Inr:
  "foldl (\<lambda>acc p. and_then acc (\<lambda>m. and_then (angularDistance c p) (\<lambda>angle. Inr (max m angle))))
         (Inr m) ps
   = (if \<exists>p\<in>set ps. haversineTerm c p < 0 then Inl DomainError
      else Inr (Max (insert m ((\<lambda>p. 2 * arcsin (min 1 (sqrt (haversineTerm c p)))) ` set ps))))"
proof (induction ps arbitrary: m)
  case Nil
  show ?case by simp
next
  case (Cons p ps)
  let ?step = "\<lambda>acc p. and_then acc (\<lambda>m. and_then (angularDistance c p) (\<lambda>angle. Inr (max m angle)))"
  let ?arc = "\<lambda>p. 2 * arcsin (min 1 (sqrt (haversineTerm c p)))"
  show ?case
  proof (cases "haversineTerm c p < 0")
    case True
    then have "?step (Inr m) p = Inl DomainError"
      by (simp add: angularDistance_cases and_then_def)
    then have "foldl ?step (Inr m) (p # ps) = Inl DomainError"
      by (simp only: foldl_Cons maxAngularSpread_foldl_Inl)
    then show ?thesis
      using True by simp
  next
    case False
    then have "?step (Inr m) p = Inr (max m (?arc p))"
      by (simp add: angularDistance_cases and_then_def)
    then have "foldl ?step (Inr m) (p # ps) = foldl ?step (Inr (max m (?arc p))) ps"
      by (simp only: foldl_Cons)
    also have "\<dots> = (if \<exists>p\<in>set ps. haversineTerm c p < 0 then Inl DomainError
                      else Inr (Max (insert (max m (?arc p)) (?arc ` set ps))))"
      by (rule Cons.IH)
    finally show ?thesis
      using False by (simp add: Max_insert_max)
  qed
qed

lemma maxAngularSpread_eq:
  "maxAngularSpread c ps
   = (if \<exists>p\<in>set ps. haversineTerm c p < 0 then Inl DomainError
      else Inr (Max (insert 0 ((\<lambda>p. 2 * arcsin (min 1 (sqrt (haversineTerm c p)))) ` set ps))))"
  unfolding maxAngularSpread_def by (rule maxAngularSpread_foldl_Inr)

lemma centerOf_eq:
  "centerOf s m =
     Inr (if m = 0 then DEFAULT_POINT_OF_VIEW
          else latLngFromCartesian \<lparr>cx = cx s / m, cy = cy s / m, cz = cz s / m\<rparr>)"
  by (simp add: centerOf_def js_div_def and_then_def)

lemma atan2_nonneg_range:
  assumes "0 \<le> a"
  shows "- (pi / 2) \<le> atan2 b a" and "atan2 b a \<le> pi / 2"
  using arctan_lbound [of "b / a"] arctan_ubound [of "b / a"] assms
  by (auto simp add: atan2_def)

lemma toDeg_quarter_range:
  assumes "- (pi / 2) \<le> r" and "r \<le> pi / 2"
  shows "- 90 \<le> toDeg r" and "toDeg r \<le> 90"
  using assms by (simp_all add: toDeg_def field_simps)

lemma validLat_latLngFromCartesian: "validLat (latLngFromCartesian v)"
proof -
  have "0 \<le> sqrt (cx v * cx v + cy v * cy v)"
    by simp
  from toDeg_quarter_range [OF atan2_nonneg_range [OF this]] show ?thesis
    by (simp add: validLat_def latLngFromCartesian_def Let_def)
qed

lemma validLat_DEFAULT_POINT_OF_VIEW: "validLat DEFAULT_POINT_OF_VIEW"
  by (simp add: validLat_def DEFAULT_POINT_OF_VIEW_def)

lemma validLat_centerOf:
  assumes "centerOf s m = Inr c"
  shows "validLat c"
  using assms validLat_latLngFromCartesian validLat_DEFAULT_POINT_OF_VIEW
  by (auto simp add: centerOf_eq split: if_splits)

lemma maxAngularSpread_valid:
  assumes "validLat c" and "\<forall>p\<in>set ps. validLat p"
  shows "\<exists>d. maxAngularSpread c ps = Inr d"
proof -
  have "\<not> (\<exists>p\<in>set ps. haversineTerm c p < 0)"
    using haversineTerm_bounds(1) [OF assms(1)] assms(2) by (auto simp: not_less)
  then show ?thesis
    by (simp add: maxAngularSpread_eq)
qed

lemma viewForPoints_many:
  assumes "length ps \<noteq> 0" and "length ps \<noteq> 1"
    and "centerOf (sumCartesian ps)
           (sqrt (cx (sumCartesian ps) * cx (sumCartesian ps)
                + cy (sumCartesian ps) * cy (sumCartesian ps)
                + cz (sumCartesian ps) * cz (sumCartesian ps))) = Inr c"
  shows "viewForPoints ps =
     and_then (maxAngularSpread c ps) (\<lambda>spread.
       Inr \<lparr>lat = lat c, lng = lng c,
            farAltitude =
              min (max (CLOSE_ALTITUDE + (FAR_ALTITUDE - CLOSE_ALTITUDE)
                          * (0.35 + 0.65 * min (spread / (pi / 2)) 1))
                       CLOSE_ALTITUDE)
                  FAR_ALTITUDE\<rparr>)"
  using assms by (simp add: viewForPoints_def Let_def and_then_def)

lemma altitude_constants: "CLOSE_ALTITUDE = 1.1" "FAR_ALTITUDE = 4.6" "CLOSE_ALTITUDE \<le> FAR_ALTITUDE"
  by (simp_all add: CLOSE_ALTITUDE_def FAR_ALTITUDE_def)

lemma viewForPoints_result:
  "viewForPoints ps = Inl DomainError
   \<or> (\<exists>v. viewForPoints ps = Inr v \<and> CLOSE_ALTITUDE \<le> farAltitude v \<and> farAltitude v \<le> FAR_ALTITUDE)"
proof -
  consider "length ps = 0" | "length ps = 1" | "length ps \<noteq> 0" "length ps \<noteq> 1"
    by blast
  then show ?thesis
  proof cases
    case 1
    then show ?thesis
      by (simp add: viewForPoints_def altitude_constants)
  next
    case 2
    then show ?thesis
      by (simp add: viewForPoints_def altitude_constants)
  next
    case 3
    obtain c where c: "centerOf (sumCartesian ps)
           (sqrt (cx (sumCartesian ps) * cx (sumCartesian ps)
                + cy (sumCartesian ps) * cy (sumCartesian ps)
                + cz (sumCartesian ps) * cz (sumCartesian ps))) = Inr c"
      by (simp add: centerOf_eq)
    note v = viewForPoints_many [OF 3 c]
    show ?thesis
    proof (cases "maxAngularSpread c ps")
      case (Inl e)
      then have "e = DomainError"
        by (simp add: maxAngularSpread_eq split: if_splits)
      then show ?thesis
        using Inl by (simp add: v and_then_def)
    next
      case (Inr d)
      then show ?thesis
        using altitude_constants(3) by (simp add: v and_then_def)
    qed
  qed
qed

lemma viewForPoints_valid:
  assumes "\<forall>p\<in>set ps. validLat p"
  shows "\<exists>v. viewForPoints ps = Inr v"
proof -
  consider "length ps = 0" | "length ps = 1" | "length ps \<noteq> 0" "length ps \<noteq> 1"
    by blast
  then show ?thesis
  proof cases
    case 1
    then show ?thesis
      by (simp add: viewForPoints_def)
  next
    case 2
    then show ?thesis
      by (simp add: viewForPoints_def)
  next
    case 3
    obtain c where c: "centerOf (sumCartesian ps)
           (sqrt (cx (sumCartesian ps) * cx (sumCartesian ps)
                + cy (sumCartesian ps) * cy (sumCartesian ps)
                + cz (sumCartesian ps) * cz (sumCartesian ps))) = Inr c"
      by (simp add: centerOf_eq)
    have "validLat c"
      using c by (rule validLat_centerOf)
    then obtain d where "maxAngularSpread c ps = Inr d"
      using maxAngularSpread_valid assms by blast
    then show ?thesis
      by (simp add: viewForPoints_many [OF 3 c] and_then_def)
  qed
qed

lemma valid_me_viewer: "validGeoPoint me" "validGeoPoint viewer"
  by (simp_all add: validGeoPoint_def validLat_def me_def viewer_def)

text \<open>
  C2. For every list of valid points, of any length, \<^verbatim>\<open>viewForPoints\<close> returns a view
  whose \<open>farAltitude\<close> lies in \<open>[CLOSE_ALTITUDE, FAR_ALTITUDE] = [1.1, 4.6]\<close>; the
  statement covers the empty list, the single point and two or more points.
\<close>

theorem viewForPoints_farAltitude_range:
  assumes "\<forall>p\<in>set ps. validGeoPoint p"
  shows "\<exists>v. viewForPoints ps = Inr v
           \<and> CLOSE_ALTITUDE \<le> farAltitude v \<and> farAltitude v \<le> FAR_ALTITUDE
           \<and> 1.1 \<le> farAltitude v \<and> farAltitude v \<le> 4.6"
proof -
  have "\<forall>p\<in>set ps. validLat p"
    using assms by (simp add: validGeoPoint_def)
  then obtain v where "viewForPoints ps = Inr v"
    using viewForPoints_valid by blast
  with viewForPoints_result [of ps] show ?thesis
    by (auto simp add: altitude_constants(1,2))
qed

theorem viewForPoints_farAltitude_range_witness:
  "validGeoPoint me \<and> validGeoPoint viewer
   \<and> (\<exists>v. viewForPoints [me, viewer] = Inr v \<and> 1.1 \<le> farAltitude v \<and> farAltitude v \<le> 4.6)"
proof -
  have h: "\<forall>p\<in>set [me, viewer]. validGeoPoint p"
    by (simp add: valid_me_viewer)
  from viewForPoints_farAltitude_range [OF h] valid_me_viewer show ?thesis
    by blast
qed

text \<open>
  C10. \<^verbatim>\<open>viewForPoints\<close> never divides by zero, whatever the list: the division by
  the magnitude is reached only when the magnitude is not zero. For a list of valid
  points it returns a view.
\<close>

theorem viewForPoints_no_division_by_zero:
  "viewForPoints ps \<noteq> Inl DivisionByZero
   \<and> ((\<forall>p\<in>set ps. validGeoPoint p) \<longrightarrow> (\<exists>v. viewForPoints ps = Inr v))"
proof -
  have "viewForPoints ps \<noteq> Inl DivisionByZero"
    using viewForPoints_result [of ps] by auto
  moreover have "\<exists>v. viewForPoints ps = Inr v" if "\<forall>p\<in>set ps. validGeoPoint p"
    using that by (intro viewForPoints_valid) (simp add: validGeoPoint_def)
  ultimately show ?thesis
    by blast
qed

theorem viewForPoints_no_division_by_zero_witness:
  "validGeoPoint me \<and> validGeoPoint viewer
   \<and> viewForPoints [me, viewer] \<noteq> Inl DivisionByZero
   \<and> (\<exists>v. viewForPoints [me, viewer] = Inr v)"
proof -
  have h: "\<forall>p\<in>set [me, viewer]. validGeoPoint p"
    by (simp add: valid_me_viewer)
  with viewForPoints_no_division_by_zero [of "[me, viewer]"] valid_me_viewer show ?thesis
    by blast
qed

subsection \<open>The distance between the two points of the scene\<close>

text \<open>
  The distance is enclosed by hand. The sine is enclosed by its Taylor polynomial of
  degree 9 with the remainder of order 11; the cosine is taken from the sine of the
  half angle; \<open>pi\<close> is enclosed from \<open>sin (pi / 4) = sqrt 2 / 2\<close>; the arc sine is
  enclosed through the monotonicity of the sine. All bounds are decimal fractions.
\<close>

lemma fact_11: "fact 11 = (39916800 :: real)"
  by (simp add: fact_numeral)

lemma sin_coeff_sum_11:
  fixes x :: real
  shows "(\<Sum>m<11. sin_coeff m * x ^ m)
         = x - x^3 / 6 + x^5 / 120 - x^7 / 5040 + x^9 / 362880"
proof -
  have "(\<Sum>m<11. sin_coeff m * x ^ m) = (\<Sum>m\<leftarrow>[0..<11]. sin_coeff m * x ^ m)"
    by (simp add: sum_list_sum_nth atLeast0LessThan)
  also have "\<dots> = x - x^3 / 6 + x^5 / 120 - x^7 / 5040 + x^9 / 362880"
    by (simp add: upt_rec [of _ "numeral _"] sin_coeff_def fact_numeral)
       (simp add: numeral_eq_Suc)
  finally show ?thesis .
qed

lemma sin_taylor_bounds:
  fixes x :: real
  assumes "0 \<le> x"
  shows "x - x^3 / 6 + x^5 / 120 - x^7 / 5040 + x^9 / 362880 - x^11 / 39916800 \<le> sin x"
    and "sin x \<le> x - x^3 / 6 + x^5 / 120 - x^7 / 5040 + x^9 / 362880 + x^11 / 39916800"
proof -
  have "\<bar>sin x - (\<Sum>m<11. sin_coeff m * x ^ m)\<bar> \<le> inverse (fact 11) * \<bar>x\<bar> ^ 11"
    by (rule Maclaurin_sin_bound)
  moreover have "\<bar>x\<bar> = x"
    using assms by simp
  ultimately have "\<bar>sin x - (x - x^3 / 6 + x^5 / 120 - x^7 / 5040 + x^9 / 362880)\<bar>
                   \<le> inverse 39916800 * x ^ 11"
    by (simp only: sin_coeff_sum_11 fact_11)
  then have "\<bar>sin x - (x - x^3 / 6 + x^5 / 120 - x^7 / 5040 + x^9 / 362880)\<bar>
                   \<le> x ^ 11 / 39916800"
    by (simp only: divide_inverse mult.commute)
  then show "x - x^3 / 6 + x^5 / 120 - x^7 / 5040 + x^9 / 362880 - x^11 / 39916800 \<le> sin x"
    and "sin x \<le> x - x^3 / 6 + x^5 / 120 - x^7 / 5040 + x^9 / 362880 + x^11 / 39916800"
    by linarith+
qed

lemma sin_at_1: "sin (0.78535 :: real) \<le> 0.70708"
  using sin_taylor_bounds(2) [of "0.78535"] by (simp add: power_divide)

lemma sin_at_2: "0.70712 \<le> sin (0.785425 :: real)"
  using sin_taylor_bounds(1) [of "0.785425"] by (simp add: power_divide)

lemma sin_at_3: "0.07009 \<le> sin (0.07015 :: real)"
  using sin_taylor_bounds(1) [of "0.07015"] by (simp add: power_divide)

lemma sin_at_4: "0.38922 \<le> sin (0.399785 :: real)"
  using sin_taylor_bounds(1) [of "0.399785"] by (simp add: power_divide)

lemma sin_at_5: "sin (0.399825 :: real) \<le> 0.389258"
  using sin_taylor_bounds(2) [of "0.399825"] by (simp add: power_divide)

lemma sin_at_6: "0.323688 \<le> sin (0.329625 :: real)"
  using sin_taylor_bounds(1) [of "0.329625"] by (simp add: power_divide)

lemma sin_at_7: "sin (0.32966 :: real) \<le> 0.323722"
  using sin_taylor_bounds(2) [of "0.32966"] by (simp add: power_divide)

lemma sin_at_8: "0.9348 \<le> sin (1.2077 :: real)"
  using sin_taylor_bounds(1) [of "1.2077"] by (simp add: power_divide)

lemma sin_at_9: "sin (1.20783 :: real) \<le> 0.93485"
  using sin_taylor_bounds(2) [of "1.20783"] by (simp add: power_divide)

lemma sin_at_10: "sin (0.77147 :: real) \<le> 0.6972"
  using sin_taylor_bounds(2) [of "0.77147"] by (simp add: power_divide)

lemma sin_at_11: "0.69774 \<le> sin (0.77224 :: real)"
  using sin_taylor_bounds(1) [of "0.77224"] by (simp add: power_divide)

lemmas sin_at = sin_at_1 sin_at_2 sin_at_3 sin_at_4 sin_at_5 sin_at_6 sin_at_7 sin_at_8 sin_at_9 sin_at_10 sin_at_11

lemma sqrt_2_bounds: "1.41416 < sqrt 2" "sqrt 2 < 1.41424"
proof -
  have "(1.41416 :: real)\<^sup>2 < 2"
    by (simp add: power2_eq_square)
  then show "1.41416 < sqrt 2"
    by (rule real_less_rsqrt)
  have "(2 :: real) < 1.41424\<^sup>2"
    by (simp add: power2_eq_square)
  then show "sqrt 2 < 1.41424"
    by (intro real_less_lsqrt) simp_all
qed

lemma pi_bounds: "3.1414 < pi" "pi < 3.1417"
proof -
  have one: "(1 :: real) \<le> pi / 2"
    using pi_ge_two by simp
  have "sin (0.78535 :: real) < sin (pi / 4)"
    using sin_at(1) sqrt_2_bounds(1) by (simp add: sin_45)
  then have "0.78535 < pi / 4"
    using one by (subst (asm) sin_mono_less_eq) simp_all
  then show "3.1414 < pi"
    by simp
  have "sin (pi / 4) < sin (0.785425 :: real)"
    using sin_at(2) sqrt_2_bounds(2) by (simp add: sin_45)
  then have "pi / 4 < 0.785425"
    using one by (subst (asm) sin_mono_less_eq) simp_all
  then show "pi < 3.1417"
    by simp
qed

lemma sin_dLat_bounds:
  "0.07009 \<le> sin (8.0401 * pi / 360)" "sin (8.0401 * pi / 360) \<le> 0.07017"
proof -
  let ?t = "8.0401 * pi / 360 :: real"
  have t: "0.07015 \<le> ?t" "?t \<le> 0.07017" "?t \<le> pi / 2"
    using pi_bounds by simp_all
  have "sin 0.07015 \<le> sin ?t"
    using t pi_bounds by (intro sin_monotone_2pi_le) simp_all
  then show "0.07009 \<le> sin ?t"
    using sin_at(3) by linarith
  have "sin ?t \<le> ?t"
    by (intro sin_x_le_x) simp
  then show "sin ?t \<le> 0.07017"
    using t(2) by linarith
qed

lemma sin_dLon_bounds:
  "0.9348 \<le> sin (138.4013 * pi / 360)" "sin (138.4013 * pi / 360) \<le> 0.93485"
proof -
  let ?t = "138.4013 * pi / 360 :: real"
  have t: "1.2077 \<le> ?t" "?t \<le> 1.20783" "?t \<le> pi / 2" "1.20783 \<le> pi / 2"
    using pi_bounds by simp_all
  have "sin 1.2077 \<le> sin ?t"
    using t pi_bounds by (intro sin_monotone_2pi_le) simp_all
  then show "0.9348 \<le> sin ?t"
    using sin_at(8) by linarith
  have "sin ?t \<le> sin 1.20783"
    using t pi_bounds by (intro sin_monotone_2pi_le) simp_all
  then show "sin ?t \<le> 0.93485"
    using sin_at(9) by linarith
qed

lemma cos_le_via_half:
  fixes t h l :: real
  assumes "0 \<le> l" and "l \<le> sin h" and "0 \<le> h" and "2 * h \<le> t" and "t \<le> pi"
  shows "cos t \<le> 1 - 2 * l\<^sup>2"
proof -
  have "cos t \<le> cos (2 * h)"
    using assms(3-5) by (intro cos_monotone_0_pi_le) simp_all
  moreover have "l\<^sup>2 \<le> (sin h)\<^sup>2"
    using assms(1,2) by (rule power_mono [rotated])
  ultimately show ?thesis
    by (simp add: cos_double_sin)
qed

lemma cos_ge_via_half:
  fixes t h u :: real
  assumes "sin h \<le> u" and "0 \<le> h" and "0 \<le> t" and "t \<le> 2 * h" and "2 * h \<le> pi"
  shows "1 - 2 * u\<^sup>2 \<le> cos t"
proof -
  have "cos (2 * h) \<le> cos t"
    using assms(3-5) by (intro cos_monotone_0_pi_le) simp_all
  moreover have "0 \<le> sin h"
    using assms(2,5) by (intro sin_ge_zero) simp_all
  then have "(sin h)\<^sup>2 \<le> u\<^sup>2"
    using assms(1) by (rule power_mono [rotated])
  ultimately show ?thesis
    by (simp add: cos_double_sin)
qed

lemma cos_lat1_bounds:
  "0.69695 \<le> cos (45.815 * pi / 180)" "cos (45.815 * pi / 180) \<le> 0.69702"
proof -
  have "cos (45.815 * pi / 180) \<le> 1 - 2 * 0.38922\<^sup>2"
    using pi_bounds by (intro cos_le_via_half [OF _ sin_at(4)]) simp_all
  moreover have "1 - 2 * 0.38922\<^sup>2 \<le> (0.69702 :: real)"
    by (simp add: power2_eq_square)
  ultimately show "cos (45.815 * pi / 180) \<le> 0.69702"
    by (rule order_trans)
  have "0.69695 \<le> 1 - 2 * (0.389258 :: real)\<^sup>2"
    by (simp add: power2_eq_square)
  moreover have "1 - 2 * 0.389258\<^sup>2 \<le> cos (45.815 * pi / 180)"
    using pi_bounds by (intro cos_ge_via_half [OF sin_at(5)]) simp_all
  ultimately show "0.69695 \<le> cos (45.815 * pi / 180)"
    by (rule order_trans)
qed

lemma cos_lat2_bounds:
  "0.7904 \<le> cos (37.7749 * pi / 180)" "cos (37.7749 * pi / 180) \<le> 0.79046"
proof -
  have "cos (37.7749 * pi / 180) \<le> 1 - 2 * 0.323688\<^sup>2"
    using pi_bounds by (intro cos_le_via_half [OF _ sin_at(6)]) simp_all
  moreover have "1 - 2 * 0.323688\<^sup>2 \<le> (0.79046 :: real)"
    by (simp add: power2_eq_square)
  ultimately show "cos (37.7749 * pi / 180) \<le> 0.79046"
    by (rule order_trans)
  have "0.7904 \<le> 1 - 2 * (0.323722 :: real)\<^sup>2"
    by (simp add: power2_eq_square)
  moreover have "1 - 2 * 0.323722\<^sup>2 \<le> cos (37.7749 * pi / 180)"
    using pi_bounds by (intro cos_ge_via_half [OF sin_at(7)]) simp_all
  ultimately show "0.7904 \<le> cos (37.7749 * pi / 180)"
    by (rule order_trans)
qed

lemma haversineKm_s_me_viewer:
  "haversineKm_s me viewer
   = (sin (8.0401 * pi / 360))\<^sup>2
     + cos (45.815 * pi / 180) * cos (37.7749 * pi / 180) * (sin (138.4013 * pi / 360))\<^sup>2"
proof -
  have e: "toRad (lat viewer - lat me) / 2 = - (8.0401 * pi / 360)"
    "toRad (lng viewer - lng me) / 2 = - (138.4013 * pi / 360)"
    "toRad (lat me) = 45.815 * pi / 180"
    "toRad (lat viewer) = 37.7749 * pi / 180"
    by (simp_all add: toRad_def me_def viewer_def)
  show ?thesis
    unfolding haversineKm_s_def Let_def e by (simp only: sin_minus power2_minus)
qed

lemma haversine_expr_interval:
  fixes a b c d :: real
  assumes "al \<le> a" "a \<le> ah" "0 \<le> al"
    and "bl \<le> b" "b \<le> bh" "0 \<le> bl"
    and "cl \<le> c" "c \<le> ch" "0 \<le> cl"
    and "dl \<le> d" "d \<le> dh" "0 \<le> dl"
  shows "al\<^sup>2 + cl * dl * bl\<^sup>2 \<le> a\<^sup>2 + c * d * b\<^sup>2"
    and "a\<^sup>2 + c * d * b\<^sup>2 \<le> ah\<^sup>2 + ch * dh * bh\<^sup>2"
proof -
  have a2: "al\<^sup>2 \<le> a\<^sup>2" "a\<^sup>2 \<le> ah\<^sup>2"
    using assms(1-3) by (intro power_mono; linarith)+
  have b2: "bl\<^sup>2 \<le> b\<^sup>2" "b\<^sup>2 \<le> bh\<^sup>2"
    using assms(4-6) by (intro power_mono; linarith)+
  have cd: "cl * dl \<le> c * d" "c * d \<le> ch * dh"
    using assms(7-12) by (intro mult_mono; linarith)+
  have nn: "0 \<le> c * d" "0 \<le> ch * dh"
    using assms(7-12) by (intro mult_nonneg_nonneg; linarith)+
  have "cl * dl * bl\<^sup>2 \<le> c * d * b\<^sup>2"
    using nn(1) by (intro mult_mono [OF cd(1) b2(1)]) simp_all
  moreover have "c * d * b\<^sup>2 \<le> ch * dh * bh\<^sup>2"
    using nn(2) by (intro mult_mono [OF cd(2) b2(2)]) simp_all
  ultimately show "al\<^sup>2 + cl * dl * bl\<^sup>2 \<le> a\<^sup>2 + c * d * b\<^sup>2"
    and "a\<^sup>2 + c * d * b\<^sup>2 \<le> ah\<^sup>2 + ch * dh * bh\<^sup>2"
    using a2 by linarith+
qed

lemma haversineKm_s_me_viewer_bounds:
  "0.4862 \<le> haversineKm_s me viewer" "haversineKm_s me viewer \<le> 0.4865"
proof -
  note i = haversine_expr_interval [OF sin_dLat_bounds _ sin_dLon_bounds _
      cos_lat1_bounds _ cos_lat2_bounds]
  have "(0.4862 :: real) \<le> 0.07009\<^sup>2 + 0.69695 * 0.7904 * 0.9348\<^sup>2"
    by (simp add: power2_eq_square)
  moreover have "0.07009\<^sup>2 + 0.69695 * 0.7904 * 0.9348\<^sup>2 \<le> haversineKm_s me viewer"
    unfolding haversineKm_s_me_viewer by (rule i(1)) simp_all
  ultimately show "0.4862 \<le> haversineKm_s me viewer"
    by (rule order_trans)
  have "haversineKm_s me viewer \<le> 0.07017\<^sup>2 + 0.69702 * 0.79046 * 0.93485\<^sup>2"
    unfolding haversineKm_s_me_viewer by (rule i(2)) simp_all
  moreover have "0.07017\<^sup>2 + 0.69702 * 0.79046 * 0.93485\<^sup>2 \<le> (0.4865 :: real)"
    by (simp add: power2_eq_square)
  ultimately show "haversineKm_s me viewer \<le> 0.4865"
    by (rule order_trans)
qed

lemma arcsin_sqrt_me_viewer_bounds:
  "0.77147 \<le> arcsin (sqrt (haversineKm_s me viewer))"
  "arcsin (sqrt (haversineKm_s me viewer)) \<le> 0.77224"
proof -
  let ?s = "haversineKm_s me viewer"
  note s = haversineKm_s_me_viewer_bounds
  have "(0.6972 :: real)\<^sup>2 \<le> 0.4862"
    by (simp add: power2_eq_square)
  then have "0.6972\<^sup>2 \<le> ?s"
    using s(1) by (rule order_trans)
  then have lo: "0.6972 \<le> sqrt ?s"
    by (rule real_le_rsqrt)
  have "(0.4865 :: real) \<le> 0.69774\<^sup>2"
    by (simp add: power2_eq_square)
  with s(2) have "?s \<le> 0.69774\<^sup>2"
    by (rule order_trans)
  then have hi: "sqrt ?s \<le> 0.69774"
    by (intro real_le_lsqrt) simp_all
  have half: "(0.77224 :: real) \<le> pi / 2"
    using pi_bounds(1) by simp
  have "arcsin (sin 0.77147) \<le> arcsin (sqrt ?s)"
  proof (rule arcsin_le_arcsin)
    show "- 1 \<le> sin (0.77147 :: real)"
      by simp
    show "sin 0.77147 \<le> sqrt ?s"
      using sin_at(10) lo by linarith
    show "sqrt ?s \<le> 1"
      using s(2) by simp
  qed
  moreover have "arcsin (sin (0.77147 :: real)) = 0.77147"
    using half by (intro arcsin_sin) simp_all
  ultimately show "0.77147 \<le> arcsin (sqrt ?s)"
    by simp
  have "arcsin (sqrt ?s) \<le> arcsin (sin 0.77224)"
  proof (rule arcsin_le_arcsin)
    show "- 1 \<le> sqrt ?s"
    proof -
      have "0 \<le> sqrt ?s"
        using s(1) by simp
      then show ?thesis
        by linarith
    qed
    show "sqrt ?s \<le> sin 0.77224"
      using sin_at(11) hi by linarith
    show "sin (0.77224 :: real) \<le> 1"
      by simp
  qed
  moreover have "arcsin (sin (0.77224 :: real)) = 0.77224"
    using half by (intro arcsin_sin) simp_all
  ultimately show "arcsin (sqrt ?s) \<le> 0.77224"
    by simp
qed

lemma haversineKm_me_viewer:
  "haversineKm me viewer = Inr (2 * 6371 * arcsin (sqrt (haversineKm_s me viewer)))"
proof -
  have "0 \<le> haversineTerm me viewer" and "haversineTerm me viewer \<le> 1"
    using haversineKm_s_me_viewer_bounds by (simp_all add: haversineKm_s_eq)
  then show ?thesis
    unfolding haversineKm_s_eq by (rule haversineKm_Inr)
qed

lemma distanceKm_eq: "distanceKm = haversineKm me viewer"
  by (simp add: distanceKm_def haversineKm_def haversineKm_s_def)

lemma distance_me_viewer_bounds:
  "9830 \<le> 2 * 6371 * arcsin (sqrt (haversineKm_s me viewer))"
  "2 * 6371 * arcsin (sqrt (haversineKm_s me viewer)) \<le> 9840"
  using arcsin_sqrt_me_viewer_bounds by simp_all

text \<open>
  C8, as amended. For the two points of the scene, \<open>(45.815, 15.9819)\<close> and
  \<open>(37.7749, -122.4194)\<close>, \<^verbatim>\<open>haversineKm\<close> (Earth radius 6371 km) returns a distance
  between 9830 km and 9840 km, that is approximately 9,834 km, within 50 km.
\<close>

theorem haversineKm_me_viewer_range:
  "\<exists>d. haversineKm me viewer = Inr d \<and> distanceKm = Inr d
       \<and> 9830 \<le> d \<and> d \<le> 9840 \<and> \<bar>d - 9834\<bar> \<le> 50"
proof -
  let ?d = "2 * 6371 * arcsin (sqrt (haversineKm_s me viewer))"
  have "\<bar>?d - 9834\<bar> \<le> 50"
    using distance_me_viewer_bounds by linarith
  with distance_me_viewer_bounds haversineKm_me_viewer distanceKm_eq show ?thesis
    by (intro exI [of _ ?d]) simp
qed

text \<open>
  C8 as stated fails: the distance is below 9850 km, so it is not within 50 km of
  9,900 km.
\<close>

theorem haversineKm_me_viewer_counterexample:
  "haversineKm me viewer = Inr (2 * 6371 * arcsin (sqrt (haversineKm_s me viewer)))
   \<and> 2 * 6371 * arcsin (sqrt (haversineKm_s me viewer)) < 9850
   \<and> \<not> (9850 \<le> 2 * 6371 * arcsin (sqrt (haversineKm_s me viewer))
          \<and> 2 * 6371 * arcsin (sqrt (haversineKm_s me viewer)) \<le> 9950)"
proof -
  have "2 * 6371 * arcsin (sqrt (haversineKm_s me viewer)) < 9850"
    using distance_me_viewer_bounds(2) by linarith
  with haversineKm_me_viewer show ?thesis
    by simp
qed

end
